theory Spec2Isabelle
  imports Complex_Main "HOL-Library.AList" "HOL-Library.Log_Nat" "HOL-Library.Sublist"
begin

section \<open>Python errors\<close>

text \<open>
  The exceptions the examples raise, as values. The payload is the message, as
  CPython 3.11 words it; an \<open>HTTPException\<close> is one of Flask's, with its status code.
\<close>

datatype py_error =
    ValueError string
  | KeyError string
  | TypeError string
  | AttributeError string
  | OverflowError string
  | ZeroDivisionError string
  | HTTPException int

section \<open>Python numbers\<close>

text \<open>
  An \<^verbatim>\<open>int\<close> is unbounded. A \<^verbatim>\<open>float\<close> is an IEEE 754 double: a finite
  value (kept as the rational it denotes; the two zeros are one value, as they are for
  \<^verbatim>\<open>==\<close>), an infinity or a NaN.
\<close>

datatype pyfloat = Finite rat | PInf | NInf | NaN

datatype pynum = PyInt int | PyFloat pyfloat

text \<open>
  Rounding to the nearest double, ties to even: 53 significant bits, the smallest
  exponent that of the subnormal numbers. \<open>ilog2 a\<close> is \<open>\<lfloor>log\<^sub>2 a\<rfloor>\<close> for \<open>a > 0\<close>.
  The range is checked by the caller, since what happens above it depends on the
  operation.
\<close>

definition ilog2 :: "rat \<Rightarrow> int" where
  "ilog2 a = (let d = bitlen (fst (quotient_of a)) - bitlen (snd (quotient_of a))
              in if 2 powi d \<le> a then d else d - 1)"

definition round_half_even :: "rat \<Rightarrow> int" where
  "round_half_even x =
     (let f = \<lfloor>x\<rfloor>; r = x - of_int f
      in if r < 1 / 2 then f else if 1 / 2 < r then f + 1 else if even f then f else f + 1)"

definition round_double :: "rat \<Rightarrow> rat" where
  "round_double x =
     (if x = 0 then 0
      else let e = max (ilog2 \<bar>x\<bar> - 52) (- 1074)
           in of_int (round_half_even (x / 2 powi e)) * 2 powi e)"

definition too_large :: "rat \<Rightarrow> bool" where
  "too_large v \<longleftrightarrow> 2 ^ 1024 \<le> \<bar>v\<bar>"


definition float_of_int :: "int \<Rightarrow> py_error + pyfloat" where
  \<comment> \<open>\<^verbatim>\<open>float(n)\<close> for an int\<close>
  "float_of_int n =
     (let v = round_double (of_int n)
      in if too_large v then Inl (OverflowError ''int too large to convert to float'')
         else Inr (Finite v))"

definition to_float :: "pynum \<Rightarrow> py_error + pyfloat" where
  \<comment> \<open>\<^verbatim>\<open>float(x)\<close>\<close>
  "to_float x = (case x of PyInt n \<Rightarrow> float_of_int n | PyFloat f \<Rightarrow> Inr f)"

definition float_gt_int :: "pyfloat \<Rightarrow> int \<Rightarrow> bool" where
  \<comment> \<open>\<^verbatim>\<open>f > n\<close> for a float and an int: the values are compared exactly; a NaN is
      not greater than anything.\<close>
  "float_gt_int f n =
     (case f of Finite x \<Rightarrow> of_int n < x | PInf \<Rightarrow> True | NInf \<Rightarrow> False | NaN \<Rightarrow> False)"






section \<open>Simple functions (1-simple-functions-example/main.py)\<close>

definition get_weather :: "pynum \<Rightarrow> py_error + string" where
  \<comment> \<open>\<^verbatim>\<open>"Hot" if float(temp) > 20 else "Cold"\<close>\<close>
  "get_weather temp =
     (case to_float temp of
        Inl e \<Rightarrow> Inl e
      | Inr f \<Rightarrow> Inr (if float_gt_int f 20 then ''Hot'' else ''Cold''))"


section \<open>UserManager (2-fixtures-setup-example/main.py)\<close>

text \<open>
  \<^verbatim>\<open>self.users = {}\<close>: a dictionary from usernames to emails. A method that
  mutates the object returns the object after the call next to its result, also when it
  raises, so that what a failed call leaves behind can be stated.
\<close>

record UserManager =
  users :: "string \<rightharpoonup> string"

definition UserManager_init :: UserManager where
  "UserManager_init = \<lparr>users = Map.empty\<rparr>"

definition add_user :: "UserManager \<Rightarrow> string \<Rightarrow> string \<Rightarrow> (py_error + bool) \<times> UserManager" where
  "add_user self username email =
     (if username \<in> dom (users self)
      then (Inl (ValueError ''User already exists''), self)
      else (Inr True, self\<lparr>users := (users self)(username \<mapsto> email)\<rparr>))"

definition getitem :: "UserManager \<Rightarrow> string \<Rightarrow> string option" where
  \<comment> \<open>\<^verbatim>\<open>self.users.get(username, None)\<close>: Python's None is \<open>None\<close>.\<close>
  "getitem self username = (case users self username of None \<Rightarrow> None | Some email \<Rightarrow> Some email)"

text \<open>
  A caller that makes a sequence of \<^verbatim>\<open>add_user\<close> calls on one manager and goes on
  after a raise (as a test under \<^verbatim>\<open>pytest.raises\<close> does).
\<close>

fun add_users :: "UserManager \<Rightarrow> (string \<times> string) list \<Rightarrow> UserManager" where
  "add_users self [] = self"
| "add_users self ((username, email) # rest) = add_users (snd (add_user self username email)) rest"

section \<open>is_prime (4-parametrized-testing/main.py)\<close>

text \<open>
  \<^verbatim>\<open>int(n**0.5)\<close> is the truncated double square root of \<open>n\<close>. For the small
  arguments used here the double square root lies on the same side of every integer as the
  real one, so the truncation is the integer square root: the largest \<open>r\<close> with
  \<open>r * r \<le> n\<close>, found by searching downwards from \<open>n\<close>.
\<close>

primrec sqrt_down :: "nat \<Rightarrow> nat \<Rightarrow> nat" where
  "sqrt_down n 0 = 0"
| "sqrt_down n (Suc r) = (if Suc r * Suc r \<le> n then Suc r else sqrt_down n r)"

definition int_sqrt :: "int \<Rightarrow> int" where
  "int_sqrt n = int (sqrt_down (nat n) (nat n))"

text \<open>The \<^verbatim>\<open>for i in range(2, int(n**0.5) + 1)\<close> loop, over the list of its indices.\<close>

fun is_prime_loop :: "int \<Rightarrow> int list \<Rightarrow> bool" where
  "is_prime_loop n [] = True"
| "is_prime_loop n (i # rest) = (if n mod i = 0 then False else is_prime_loop n rest)"

definition is_prime :: "int \<Rightarrow> bool" where
  "is_prime n = (if n \<le> 1 then False else is_prime_loop n [2..int_sqrt n])"

section \<open>DataBase (3-fixtures-teardown/db.py)\<close>

record DataBase =
  data :: "int \<rightharpoonup> string"

definition DataBase_init :: DataBase where
  "DataBase_init = \<lparr>data = Map.empty\<rparr>"

definition DataBase_add_user :: "DataBase \<Rightarrow> int \<Rightarrow> string \<Rightarrow> (py_error + unit) \<times> DataBase" where
  "DataBase_add_user self user_id name =
     (if user_id \<in> dom (data self)
      then (Inl (ValueError ''User ID already exists''), self)
      else (Inr (), self\<lparr>data := (data self)(user_id \<mapsto> name)\<rparr>))"

definition DataBase_getitem :: "DataBase \<Rightarrow> int \<Rightarrow> string option" where
  "DataBase_getitem self user_id = (case data self user_id of None \<Rightarrow> None | Some name \<Rightarrow> Some name)"

definition DataBase_delitem :: "DataBase \<Rightarrow> int \<Rightarrow> (py_error + unit) \<times> DataBase" where
  "DataBase_delitem self user_id =
     (if user_id \<in> dom (data self)
      then (Inr (), self\<lparr>data := (data self)(user_id := None)\<rparr>)
      else (Inl (KeyError ''User ID not found''), self))"

definition DataBase_clear :: "DataBase \<Rightarrow> DataBase" where
  \<comment> \<open>\<^verbatim>\<open>database.data.clear()\<close>\<close>
  "DataBase_clear self = self\<lparr>data := Map.empty\<rparr>"

section \<open>Fixtures: setup, test body, teardown\<close>

text \<open>
  Modelled from the spec: the fixture resolver. The tests only declare fixtures
  (\<^verbatim>\<open>@pytest.fixture\<close>) and name them as parameters; what runs them is not part
  of the sources. The model is the spec's two-phase provider (a setup step producing the
  value, a teardown step resumed after the yield point) and its per-test state machine
  \<open>Unresolved \<rightarrow> Setting Up \<rightarrow> Ready \<rightarrow> Tearing Down \<rightarrow> Done\<close>.

  The produced value is a mutable object shared by fixture and test, so the test body
  returns the object as it left it together with its outcome (\<open>Inl\<close>: it raised).
\<close>

record 'r FixtureProvider =
  set_up :: 'r
  tear_down :: "'r \<Rightarrow> 'r"

type_synonym outcome = "py_error + unit"

type_synonym 'r test_body = "'r \<Rightarrow> outcome \<times> 'r"

datatype 'r resolver_state =
    Unresolved
  | SettingUp
  | Ready 'r
  | TearingDown 'r outcome
  | Done 'r outcome

datatype event = SetupRan | BodyReturned | BodyRaised | TeardownRan

fun resolver_step ::
  "'r FixtureProvider \<Rightarrow> 'r test_body \<Rightarrow> 'r resolver_state \<times> event list \<Rightarrow> 'r resolver_state \<times> event list"
where
  "resolver_step fx body (Unresolved, evs) = (SettingUp, evs)"
| "resolver_step fx body (SettingUp, evs) = (Ready (set_up fx), evs @ [SetupRan])"
| "resolver_step fx body (Ready v, evs) =
     (case body v of
        (Inr u, v') \<Rightarrow> (TearingDown v' (Inr u), evs @ [BodyReturned])
      | (Inl e, v') \<Rightarrow> (TearingDown v' (Inl e), evs @ [BodyRaised]))"
| "resolver_step fx body (TearingDown v out, evs) = (Done (tear_down fx v) out, evs @ [TeardownRan])"
| "resolver_step fx body (Done v out, evs) = (Done v out, evs)"

fun phase_rank :: "'r resolver_state \<Rightarrow> nat" where
  "phase_rank Unresolved = 4"
| "phase_rank SettingUp = 3"
| "phase_rank (Ready v) = 2"
| "phase_rank (TearingDown v out) = 1"
| "phase_rank (Done v out) = 0"

function resolve_and_run ::
  "'r FixtureProvider \<Rightarrow> 'r test_body \<Rightarrow> 'r resolver_state \<times> event list \<Rightarrow> 'r resolver_state \<times> event list"
where
  "resolve_and_run fx body s =
     (if phase_rank (fst s) = 0 then s else resolve_and_run fx body (resolver_step fx body s))"
  by pat_completeness auto
termination
proof (relation "measure (\<lambda>(fx, body, s). phase_rank (fst s))")
  show "wf (measure (\<lambda>(fx :: 'r FixtureProvider, body :: 'r test_body, s). phase_rank (fst s)))"
    by simp
next
  fix fx :: "'r FixtureProvider" and body :: "'r test_body" and s :: "'r resolver_state \<times> event list"
  assume "phase_rank (fst s) \<noteq> 0"
  then have "phase_rank (fst (resolver_step fx body s)) < phase_rank (fst s)"
    by (cases "(fx, body, s)" rule: resolver_step.cases) (auto split: prod.splits sum.splits)
  then show "((fx, body, resolver_step fx body s), (fx, body, s))
               \<in> measure (\<lambda>(fx, body, s). phase_rank (fst s))"
    by simp
qed

declare resolve_and_run.simps [simp del]

definition run_test :: "'r FixtureProvider \<Rightarrow> 'r test_body \<Rightarrow> 'r resolver_state \<times> event list" where
  "run_test fx body = resolve_and_run fx body (Unresolved, [])"

definition teardown_count :: "event list \<Rightarrow> nat" where
  "teardown_count evs = length (filter (\<lambda>e. e = TeardownRan) evs)"

text \<open>
  The \<^verbatim>\<open>db\<close> fixture of 3-fixtures-teardown/test_db.py:
  \<^verbatim>\<open>database = DataBase(); yield database; database.data.clear()\<close>.
\<close>

definition db :: "DataBase FixtureProvider" where
  "db = \<lparr>set_up = DataBase_init, tear_down = DataBase_clear\<rparr>"

text \<open>The bodies of \<^verbatim>\<open>test_add_user\<close> and of a test that raises after adding a user.\<close>

definition test_add_user :: "DataBase test_body" where
  "test_add_user d =
     (case DataBase_add_user d 1 ''Alice'' of
        (Inl e, d') \<Rightarrow> (Inl e, d')
      | (Inr u, d') \<Rightarrow>
          if DataBase_getitem d' 1 = Some ''Alice'' then (Inr (), d')
          else (Inl (ValueError ''assert''), d'))"

definition test_add_twice :: "DataBase test_body" where
  "test_add_twice d =
     (case DataBase_add_user d 1 ''Alice'' of
        (Inl e, d') \<Rightarrow> (Inl e, d')
      | (Inr u, d') \<Rightarrow> DataBase_add_user d' 1 ''Bob'')"

section \<open>Python values\<close>

text \<open>
  The values passed to the stand-ins and returned by \<^verbatim>\<open>request.get_json()\<close>. A dict
  is the list of its items in insertion order, with string keys, each key once.
\<close>

datatype pyval =
    VNone
  | VBool bool
  | VInt int
  | VFloat pyfloat
  | VStr string
  | VList "pyval list"
  | VTuple "pyval list"
  | VDict "(string \<times> pyval) list"

fun type_name :: "pyval \<Rightarrow> string" where
  "type_name VNone = ''NoneType''"
| "type_name (VBool b) = ''bool''"
| "type_name (VInt n) = ''int''"
| "type_name (VFloat f) = ''float''"
| "type_name (VStr s) = ''str''"
| "type_name (VList xs) = ''list''"
| "type_name (VTuple xs) = ''tuple''"
| "type_name (VDict d) = ''dict''"

definition quoted :: "string \<Rightarrow> string" where
  "quoted s = [CHR 0x27] @ s @ [CHR 0x27]"

fun truthy :: "pyval \<Rightarrow> bool" where
  "truthy VNone = False"
| "truthy (VBool b) = b"
| "truthy (VInt n) = (n \<noteq> 0)"
| "truthy (VFloat f) = (f \<noteq> Finite 0)"
| "truthy (VStr s) = (s \<noteq> [])"
| "truthy (VList xs) = (xs \<noteq> [])"
| "truthy (VTuple xs) = (xs \<noteq> [])"
| "truthy (VDict d) = (d \<noteq> [])"

fun contains :: "pyval \<Rightarrow> string \<Rightarrow> py_error + bool" where
  \<comment> \<open>\<^verbatim>\<open>key in data\<close> for a string key\<close>
  "contains (VDict d) key = Inr (key \<in> fst ` set d)"
| "contains (VList xs) key = Inr (VStr key \<in> set xs)"
| "contains (VTuple xs) key = Inr (VStr key \<in> set xs)"
| "contains (VStr s) key = Inr (sublist key s)"
| "contains v key =
     Inl (TypeError (''argument of type '' @ quoted (type_name v) @ '' is not iterable''))"

definition dict_get :: "(string \<times> pyval) list \<Rightarrow> string \<Rightarrow> py_error + pyval" where
  \<comment> \<open>\<^verbatim>\<open>d[key]\<close> on a dict\<close>
  "dict_get d key = (case map_of d key of Some v \<Rightarrow> Inr v | None \<Rightarrow> Inl (KeyError key))"

fun subscript :: "pyval \<Rightarrow> string \<Rightarrow> py_error + pyval" where
  \<comment> \<open>\<^verbatim>\<open>data[key]\<close> for a string key\<close>
  "subscript (VDict d) key = dict_get d key"
| "subscript (VStr s) key =
     Inl (TypeError (''string indices must be integers, not '' @ quoted ''str''))"
| "subscript (VList xs) key = Inl (TypeError ''list indices must be integers or slices, not str'')"
| "subscript (VTuple xs) key = Inl (TypeError ''tuple indices must be integers or slices, not str'')"
| "subscript v key = Inl (TypeError (quoted (type_name v) @ '' object is not subscriptable''))"

section \<open>Call recorders and mocks\<close>

text \<open>
  Modelled from the spec: the Call Recorder and the Mock Builder. The tests use them
  through the \<^verbatim>\<open>mocker\<close> fixture (\<^verbatim>\<open>mocker.patch\<close>, \<^verbatim>\<open>mocker.Mock\<close>),
  whose code is not part of the sources. The model follows the spec's words: a recorder
  holds the ordered history of its calls (positional and named arguments; the order
  index is the position in the list) and a configured return value or raised effect;
  \<^verbatim>\<open>record\<close> appends the call before the configured behaviour is applied.
  Equality on the argument type \<open>'v\<close> stands for the deep equality of argument values;
  named arguments are a dictionary, so their order does not matter.
\<close>

type_synonym 'v call = "'v list \<times> (string \<rightharpoonup> 'v)"

datatype 'v test_error =
    AssertionMismatch "'v call" "'v call list"
  | UnknownAttribute string
  | Raised py_error

record ('v, 'r) Recorder =
  history :: "'v call list"
  return_value :: 'r
  side_effect :: "py_error option"

definition new_recorder :: "'r \<Rightarrow> ('v, 'r) Recorder" where
  "new_recorder r = \<lparr>history = [], return_value = r, side_effect = None\<rparr>"

text \<open>
  Modelled from the spec: \<^verbatim>\<open>record(args, kwargs)\<close>. The call is appended to the
  history before the configured behaviour (the raised effect if there is one, the return
  value otherwise) is applied.
\<close>

definition record_call ::
  "('v, 'r) Recorder \<Rightarrow> 'v list \<Rightarrow> (string \<rightharpoonup> 'v) \<Rightarrow> (py_error + 'r) \<times> ('v, 'r) Recorder"
where
  "record_call m args kwargs =
     (let m' = m\<lparr>history := history m @ [(args, kwargs)]\<rparr>
      in case side_effect m' of
           Some e \<Rightarrow> (Inl e, m')
         | None \<Rightarrow> (Inr (return_value m'), m'))"

text \<open>
  Modelled from the spec: \<^verbatim>\<open>assert_called_once_with(args, kwargs)\<close>. The failure
  carries the expected call and the calls actually recorded.
\<close>

definition assert_called_once_with ::
  "('v, 'r) Recorder \<Rightarrow> 'v list \<Rightarrow> (string \<rightharpoonup> 'v) \<Rightarrow> 'v test_error + unit"
where
  "assert_called_once_with m args kwargs =
     (case history m of
        [c] \<Rightarrow> if c = (args, kwargs) then Inr ()
               else Inl (AssertionMismatch (args, kwargs) [c])
      | calls \<Rightarrow> Inl (AssertionMismatch (args, kwargs) calls))"

text \<open>
  Modelled from the spec: \<^verbatim>\<open>mock(spec=CapabilitySet)\<close>. A mock is a set of named
  attributes, each a recorder, created on first access. With a capability set only the
  names in the set can be read, called or configured; without one every name can.
\<close>

record ('v, 'r) Mock =
  capabilities :: "string list option"
  default_value :: 'r
  attrs :: "string \<rightharpoonup> ('v, 'r) Recorder"

definition mock :: "string list option \<Rightarrow> 'r \<Rightarrow> ('v, 'r) Mock" where
  "mock cap r = \<lparr>capabilities = cap, default_value = r, attrs = Map.empty\<rparr>"

definition allows :: "('v, 'r) Mock \<Rightarrow> string \<Rightarrow> bool" where
  "allows m name = (case capabilities m of None \<Rightarrow> True | Some cap \<Rightarrow> name \<in> set cap)"

definition attr :: "('v, 'r) Mock \<Rightarrow> string \<Rightarrow> ('v, 'r) Recorder" where
  "attr m name = (case attrs m name of Some r \<Rightarrow> r | None \<Rightarrow> new_recorder (default_value m))"

definition mock_read :: "('v, 'r) Mock \<Rightarrow> string \<Rightarrow> 'v test_error + ('v, 'r) Recorder" where
  "mock_read m name = (if allows m name then Inr (attr m name) else Inl (UnknownAttribute name))"

definition mock_call ::
  "('v, 'r) Mock \<Rightarrow> string \<Rightarrow> 'v list \<Rightarrow> (string \<rightharpoonup> 'v) \<Rightarrow> 'v test_error + ((py_error + 'r) \<times> ('v, 'r) Mock)"
where
  "mock_call m name args kwargs =
     (if allows m name
      then (case record_call (attr m name) args kwargs of
              (res, r') \<Rightarrow> Inr (res, m\<lparr>attrs := (attrs m)(name \<mapsto> r')\<rparr>))
      else Inl (UnknownAttribute name))"

definition mock_configure_return ::
  "('v, 'r) Mock \<Rightarrow> string \<Rightarrow> 'r \<Rightarrow> 'v test_error + ('v, 'r) Mock"
where
  "mock_configure_return m name v =
     (if allows m name
      then Inr (m\<lparr>attrs := (attrs m)(name \<mapsto> (attr m name)\<lparr>return_value := v\<rparr>)\<rparr>)
      else Inl (UnknownAttribute name))"

definition mock_configure_effect ::
  "('v, 'r) Mock \<Rightarrow> string \<Rightarrow> py_error \<Rightarrow> 'v test_error + ('v, 'r) Mock"
where
  "mock_configure_effect m name e =
     (if allows m name
      then Inr (m\<lparr>attrs := (attrs m)(name \<mapsto> (attr m name)\<lparr>side_effect := Some e\<rparr>)\<rparr>)
      else Inl (UnknownAttribute name))"

section \<open>APIClient and UserService (5-mocking/mocking-classes/service.py)\<close>

text \<open>The operations class \<^verbatim>\<open>APIClient\<close> declares: one method.\<close>

definition APIClient :: "string list" where
  "APIClient = [''get_user_data'']"

text \<open>
  \<^verbatim>\<open>UserService.get_username\<close> with a mock as its \<^verbatim>\<open>api_client\<close>:
  \<^verbatim>\<open>user_data = self.api_client.get_user_data(user_id); return user_data['name'].upper()\<close>.
  \<^verbatim>\<open>str.upper\<close> is modelled on ASCII letters.
\<close>

definition upper_char :: "char \<Rightarrow> char" where
  "upper_char c =
     (let n = (of_char c :: nat) in if 97 \<le> n \<and> n \<le> 122 then char_of (n - 32) else c)"

definition get_username ::
  "(pyval, pyval) Mock \<Rightarrow> pyval \<Rightarrow> pyval test_error + ((py_error + string) \<times> (pyval, pyval) Mock)"
where
  "get_username api_client user_id =
     (case mock_call api_client ''get_user_data'' [user_id] Map.empty of
        Inl e \<Rightarrow> Inl e
      | Inr (Inl e, m) \<Rightarrow> Inr (Inl e, m)
      | Inr (Inr user_data, m) \<Rightarrow>
          (case subscript user_data ''name'' of
             Inl e \<Rightarrow> Inr (Inl e, m)
           | Inr (VStr name) \<Rightarrow> Inr (Inr (map upper_char name), m)
           | Inr v \<Rightarrow>
               Inr (Inl (AttributeError
                      (quoted (type_name v) @ '' object has no attribute '' @ quoted ''upper'')),
                    m)))"

section \<open>get_weather over HTTP (5-mocking/mocking-a-function/main.py)\<close>

text \<open>
  \<^verbatim>\<open>requests.get\<close> is the recorder patched in for it; it returns the configured
  response, of which the function reads \<^verbatim>\<open>status_code\<close> and \<^verbatim>\<open>json()\<close>.
\<close>

record Response =
  status_code :: int
  json :: pyval

definition get_weather_http ::
  "string \<Rightarrow> (pyval, Response) Recorder \<Rightarrow> (py_error + pyval) \<times> (pyval, Response) Recorder"
where
  "get_weather_http city requests_get =
     (case record_call requests_get [VStr (''http://api.weatherapi.com/v1/'' @ city)] Map.empty of
        (Inl e, g) \<Rightarrow> (Inl e, g)
      | (Inr response, g) \<Rightarrow>
          if status_code response = 200 then (Inr (json response), g)
          else (Inl (ValueError ''City not found or API error''), g))"

section \<open>save_user (5-mocking/mocking-a-database/db.py)\<close>

text \<open>
  The stand-ins reached from the patched \<^verbatim>\<open>sqlite3.connect\<close>: the connection's
  \<^verbatim>\<open>cursor\<close>, \<^verbatim>\<open>commit\<close> and \<^verbatim>\<open>close\<close>, and the cursor's \<^verbatim>\<open>execute\<close>.
\<close>

record sqlite3_mock =
  connect :: "(pyval, unit) Recorder"
  cursor :: "(pyval, unit) Recorder"
  execute :: "(pyval, unit) Recorder"
  commit :: "(pyval, unit) Recorder"
  close :: "(pyval, unit) Recorder"

definition save_user :: "string \<Rightarrow> int \<Rightarrow> sqlite3_mock \<Rightarrow> (py_error + unit) \<times> sqlite3_mock" where
  "save_user name age w =
     (case record_call (connect w) [VStr ''users.db''] Map.empty of (r1, c1) \<Rightarrow>
      let w1 = w\<lparr>connect := c1\<rparr> in
      case r1 of Inl e \<Rightarrow> (Inl e, w1) | Inr conn \<Rightarrow>
     (case record_call (cursor w1) [] Map.empty of (r2, c2) \<Rightarrow>
      let w2 = w1\<lparr>cursor := c2\<rparr> in
      case r2 of Inl e \<Rightarrow> (Inl e, w2) | Inr cur \<Rightarrow>
     (case record_call (execute w2)
             [VStr ''INSERT INTO users (name, age) VALUES (?, ?)'', VTuple [VStr name, VInt age]]
             Map.empty of (r3, c3) \<Rightarrow>
      let w3 = w2\<lparr>execute := c3\<rparr> in
      case r3 of Inl e \<Rightarrow> (Inl e, w3) | Inr u3 \<Rightarrow>
     (case record_call (commit w3) [] Map.empty of (r4, c4) \<Rightarrow>
      let w4 = w3\<lparr>commit := c4\<rparr> in
      case r4 of Inl e \<Rightarrow> (Inl e, w4) | Inr u4 \<Rightarrow>
     (case record_call (close w4) [] Map.empty of (r5, c5) \<Rightarrow>
      let w5 = w4\<lparr>close := c5\<rparr> in
      case r5 of Inl e \<Rightarrow> (Inl e, w5) | Inr u5 \<Rightarrow> (Inr (), w5))))))"

section \<open>The users API (6-example-testing-an-api/api.py)\<close>

text \<open>
  The module-level dictionary \<^verbatim>\<open>users\<close> is the state the two routes share: each
  handler takes it and, where it writes, returns it updated. A response is the pair of
  the JSON body and the status code.

  \<^verbatim>\<open>request.get_json()\<close> is Flask's, not the repository's: what the call does on the
  request at hand is the argument \<open>get_json\<close> of the handler. Either it raises (Flask
  answers a request without a JSON body itself, and the handler's own check is never
  reached), or it returns the parsed body (\<open>VNone\<close> for the JSON value \<^verbatim>\<open>null\<close>).
\<close>

type_synonym users_store = "(int \<times> pyval) list"

definition invalid_input :: "pyval \<times> int" where
  "invalid_input = (VDict [(''error'', VStr ''Invalid input'')], 400)"

definition api_get_user :: "int \<Rightarrow> users_store \<Rightarrow> pyval \<times> int" where
  "api_get_user user_id store =
     (case map_of store user_id of
        Some user \<Rightarrow>
          if truthy user then (user, 200)
          else (VDict [(''error'', VStr ''User not found'')], 404)
      | None \<Rightarrow> (VDict [(''error'', VStr ''User not found'')], 404))"

definition api_add_user ::
  "py_error + pyval \<Rightarrow> users_store \<Rightarrow> (py_error + pyval \<times> int) \<times> users_store"
where
  "api_add_user get_json store =
     (case get_json of
        Inl e \<Rightarrow> (Inl e, store)
      | Inr body \<Rightarrow>
     (if \<not> truthy body then (Inr invalid_input, store)
      else case contains body ''name'' of
        Inl e \<Rightarrow> (Inl e, store)
      | Inr False \<Rightarrow> (Inr invalid_input, store)
      | Inr True \<Rightarrow>
     (case contains body ''email'' of
        Inl e \<Rightarrow> (Inl e, store)
      | Inr False \<Rightarrow> (Inr invalid_input, store)
      | Inr True \<Rightarrow>
     (let user_id = int (length store) + 1 in
      case subscript body ''name'' of
        Inl e \<Rightarrow> (Inl e, store)
      | Inr name \<Rightarrow>
     (case subscript body ''email'' of
        Inl e \<Rightarrow> (Inl e, store)
      | Inr email \<Rightarrow>
     (let user = VDict [(''id'', VInt user_id), (''name'', name), (''email'', email)];
          store' = AList.update user_id user store
      in (Inr (user, 201), store')))))))"

text \<open>The requests of a test session, one after the other, on the shared store.\<close>

fun api_add_users :: "(py_error + pyval) list \<Rightarrow> users_store \<Rightarrow> users_store" where
  "api_add_users [] store = store"
| "api_add_users (get_json # rest) store =
     api_add_users rest (snd (api_add_user get_json store))"

section \<open>UserManager: duplicates and lookups\<close>

lemma add_user_other:
  "u \<noteq> username \<Longrightarrow> users (snd (add_user self username email)) u = users self u"
  by (simp add: add_user_def)

lemma add_users_other:
  "u \<notin> set (map fst ops) \<Longrightarrow> users (add_users self ops) u = users self u"
  by (induction self ops rule: add_users.induct) (auto simp: add_user_other)

text \<open>
  C6. On a fresh manager \<^verbatim>\<open>add_user("john_doe", e1)\<close> returns True and a second
  \<^verbatim>\<open>add_user("john_doe", e2)\<close> raises ValueError "User already exists", whatever the
  emails; and after any sequence of \<^verbatim>\<open>add_user\<close> calls on a fresh manager, indexing
  with a username that was never added returns None.
\<close>

theorem john_doe_twice_and_unknown_lookup:
  "fst (add_user UserManager_init ''john_doe'' e1) = Inr True \<and>
   fst (add_user (snd (add_user UserManager_init ''john_doe'' e1)) ''john_doe'' e2)
     = Inl (ValueError ''User already exists'') \<and>
   (username \<notin> set (map fst ops) \<longrightarrow>
      getitem (add_users UserManager_init ops) username = None)"
  by (simp add: add_user_def UserManager_init_def getitem_def add_users_other
           split: option.splits)

theorem john_doe_twice_and_unknown_lookup_witness:
  "''nonexistent'' \<notin> set (map fst [(''john_doe'', ''john@example.com'')]) \<and>
   getitem (add_users UserManager_init [(''john_doe'', ''john@example.com'')]) ''nonexistent'' = None \<and>
   fst (add_user UserManager_init ''john_doe'' ''john@example.com'') = Inr True \<and>
   fst (add_user (snd (add_user UserManager_init ''john_doe'' ''john@example.com''))
          ''john_doe'' ''another@example.com'')
     = Inl (ValueError ''User already exists'')"
  using john_doe_twice_and_unknown_lookup
    [of "''john@example.com''" "''another@example.com''" "''nonexistent''"
        "[(''john_doe'', ''john@example.com'')]"]
  by simp

text \<open>
  C9. \<^verbatim>\<open>add_user\<close> with a username that is already present raises and leaves the
  manager as it was: the stored email of that username is kept and no other entry
  changes.
\<close>

theorem add_user_existing_unchanged:
  "username \<in> dom (users self) \<Longrightarrow>
     add_user self username new_email = (Inl (ValueError ''User already exists''), self) \<and>
     users (snd (add_user self username new_email)) = users self"
  by (simp add: add_user_def)

theorem add_user_existing_unchanged_witness:
  "''john_doe'' \<in> dom (users (snd (add_user UserManager_init ''john_doe'' ''john@example.com''))) \<and>
   users (snd (add_user (snd (add_user UserManager_init ''john_doe'' ''john@example.com''))
                 ''john_doe'' ''another@example.com'')) ''john_doe''
     = Some ''john@example.com''"
proof -
  let ?m = "snd (add_user UserManager_init ''john_doe'' ''john@example.com'')"
  have h: "''john_doe'' \<in> dom (users ?m)"
    by (simp add: add_user_def UserManager_init_def)
  have "users ?m ''john_doe'' = Some ''john@example.com''"
    by (simp add: add_user_def UserManager_init_def)
  with h add_user_existing_unchanged [OF h, of "''another@example.com''"] show ?thesis
    by simp
qed

section \<open>is_prime on 1..25\<close>

lemma upto_1_25:
  "[1..25::int] =
     [1, 2, 3, 4, 5, 6, 7, 8, 9, 10, 11, 12, 13, 14, 15, 16, 17, 18, 19, 20, 21, 22, 23, 24, 25]"
  by (simp add: upto_rec1)

lemma is_prime_table:
  "map is_prime
     [1, 2, 3, 4, 5, 6, 7, 8, 9, 10, 11, 12, 13, 14, 15, 16, 17, 18, 19, 20, 21, 22, 23, 24, 25] =
     [False, True, True, False, True, False, True, False, False, False, True, False, True,
      False, False, False, True, False, True, False, False, False, True, False, False]"
  by code_simp

text \<open>
  C5. For every integer \<open>n\<close> from 1 to 25, \<^verbatim>\<open>is_prime(n)\<close> is true exactly when \<open>n\<close>
  is one of 2, 3, 5, 7, 11, 13, 17, 19, 23.
\<close>

theorem is_prime_1_25:
  "\<forall>n\<in>{1..25}. is_prime n \<longleftrightarrow> n \<in> {2, 3, 5, 7, 11, 13, 17, 19, 23}"
proof -
  have "\<forall>n\<in>set [1..25]. is_prime n \<longleftrightarrow> n \<in> {2, 3, 5, 7, 11, 13, 17, 19, 23}"
    unfolding upto_1_25 using is_prime_table by simp
  then show ?thesis unfolding set_upto .
qed

theorem is_prime_1_25_witness:
  "(7::int) \<in> {1..25} \<and> is_prime 7 \<and> (25::int) \<in> {1..25} \<and> \<not> is_prime 25"
proof -
  have a: "(7::int) \<in> {1..25}" and b: "(25::int) \<in> {1..25}" by simp_all
  from bspec [OF is_prime_1_25 a] bspec [OF is_prime_1_25 b] a b show ?thesis by simp
qed

section \<open>Fixture teardown\<close>

lemma run_Done: "resolve_and_run fx body (Done v out, evs) = (Done v out, evs)"
  by (subst resolve_and_run.simps) simp

lemma run_TearingDown:
  "resolve_and_run fx body (TearingDown v out, evs) =
     (Done (tear_down fx v) out, evs @ [TeardownRan])"
  by (subst resolve_and_run.simps) (simp add: run_Done)

lemma run_Ready:
  "resolve_and_run fx body (Ready v, evs) =
     (Done (tear_down fx (snd (body v))) (fst (body v)),
      evs @ [case fst (body v) of Inl e \<Rightarrow> BodyRaised | Inr u \<Rightarrow> BodyReturned, TeardownRan])"
  by (subst resolve_and_run.simps) (simp add: run_TearingDown split: prod.splits sum.splits)

lemma run_SettingUp:
  "resolve_and_run fx body (SettingUp, evs) =
     resolve_and_run fx body (Ready (set_up fx), evs @ [SetupRan])"
  by (subst resolve_and_run.simps) simp

lemma run_Unresolved:
  "resolve_and_run fx body (Unresolved, evs) = resolve_and_run fx body (SettingUp, evs)"
  by (subst resolve_and_run.simps) simp

lemma DataBase_clear_init: "DataBase_clear d = DataBase_init"
  by (simp add: DataBase_clear_def DataBase_init_def)

text \<open>
  C1. For every fixture and every test body, whether the body returns or raises, the run
  reaches \<open>Done\<close> having done exactly: the setup step, the body, the teardown step. So the
  teardown step runs exactly once, after the body, on the object as the body left it.
  For the \<^verbatim>\<open>db\<close> fixture that step is \<^verbatim>\<open>database.data.clear()\<close>: the database ends
  empty whatever the test did.
\<close>

theorem teardown_runs_exactly_once:
  "run_test fx body =
     (Done (tear_down fx (snd (body (set_up fx)))) (fst (body (set_up fx))),
      [SetupRan,
       case fst (body (set_up fx)) of Inl e \<Rightarrow> BodyRaised | Inr u \<Rightarrow> BodyReturned,
       TeardownRan]) \<and>
   teardown_count (snd (run_test fx body)) = 1 \<and>
   last (snd (run_test fx body)) = TeardownRan \<and>
   run_test db test =
     (Done DataBase_init (fst (test DataBase_init)),
      [SetupRan,
       case fst (test DataBase_init) of Inl e \<Rightarrow> BodyRaised | Inr u \<Rightarrow> BodyReturned,
       TeardownRan])"
  by (simp add: run_test_def run_Unresolved run_SettingUp run_Ready teardown_count_def
        db_def DataBase_clear_init split: sum.splits)

theorem teardown_runs_exactly_once_witness:
  "run_test db test_add_user =
     (Done DataBase_init (Inr ()), [SetupRan, BodyReturned, TeardownRan]) \<and>
   run_test db test_add_twice =
     (Done DataBase_init (Inl (ValueError ''User ID already exists'')),
      [SetupRan, BodyRaised, TeardownRan])"
  using teardown_runs_exactly_once
          [THEN conjunct2, THEN conjunct2, THEN conjunct2, of test_add_user]
        teardown_runs_exactly_once
          [THEN conjunct2, THEN conjunct2, THEN conjunct2, of test_add_twice]
  by (simp add: test_add_user_def test_add_twice_def DataBase_add_user_def DataBase_init_def
        DataBase_getitem_def)

section \<open>Recorded calls\<close>

lemma save_user_fresh:
  "save_user name age
     \<lparr>connect = new_recorder (), cursor = new_recorder (), execute = new_recorder (),
      commit = new_recorder (), close = new_recorder ()\<rparr> =
   (Inr (),
    \<lparr>connect = \<lparr>history = [([VStr ''users.db''], Map.empty)], return_value = (),
                 side_effect = None\<rparr>,
     cursor = \<lparr>history = [([], Map.empty)], return_value = (), side_effect = None\<rparr>,
     execute = \<lparr>history = [([VStr ''INSERT INTO users (name, age) VALUES (?, ?)'',
                               VTuple [VStr name, VInt age]], Map.empty)],
                return_value = (), side_effect = None\<rparr>,
     commit = \<lparr>history = [([], Map.empty)], return_value = (), side_effect = None\<rparr>,
     close = \<lparr>history = [([], Map.empty)], return_value = (), side_effect = None\<rparr>\<rparr>)"
  by (simp add: save_user_def record_call_def new_recorder_def)

text \<open>
  C2. \<^verbatim>\<open>assert_called_once_with(args, kwargs)\<close> succeeds if and only if the history
  has length exactly 1 and its one call has the expected positional and named arguments;
  in every other case it fails with the error that carries the expected call and the
  recorded ones.
\<close>

theorem assert_called_once_with_iff:
  "(assert_called_once_with m args kwargs = Inr () \<longleftrightarrow>
      length (history m) = 1 \<and> history m ! 0 = (args, kwargs)) \<and>
   (assert_called_once_with m args kwargs = Inr () \<or>
    assert_called_once_with m args kwargs = Inl (AssertionMismatch (args, kwargs) (history m)))"
  by (auto simp: assert_called_once_with_def split: list.splits)

theorem assert_called_once_with_iff_witness:
  "assert_called_once_with
     (connect (snd (save_user ''Alice'' 30
        \<lparr>connect = new_recorder (), cursor = new_recorder (), execute = new_recorder (),
         commit = new_recorder (), close = new_recorder ()\<rparr>)))
     [VStr ''users.db''] Map.empty = Inr () \<and>
   assert_called_once_with
     (execute (snd (save_user ''Alice'' 30
        \<lparr>connect = new_recorder (), cursor = new_recorder (), execute = new_recorder (),
         commit = new_recorder (), close = new_recorder ()\<rparr>)))
     [VStr ''INSERT INTO users (name, age) VALUES (?, ?)'', VTuple [VStr ''Alice'', VInt 30]]
     Map.empty = Inr () \<and>
   assert_called_once_with
     (connect (snd (save_user ''Alice'' 30
        \<lparr>connect = new_recorder (), cursor = new_recorder (), execute = new_recorder (),
         commit = new_recorder (), close = new_recorder ()\<rparr>)))
     [VStr ''other.db''] Map.empty =
     Inl (AssertionMismatch ([VStr ''other.db''], Map.empty) [([VStr ''users.db''], Map.empty)])"
proof -
  let ?w = "snd (save_user ''Alice'' 30
        \<lparr>connect = new_recorder (), cursor = new_recorder (), execute = new_recorder (),
         commit = new_recorder (), close = new_recorder ()\<rparr>)"
  have 1: "history (connect ?w) = [([VStr ''users.db''], Map.empty)]"
    by (simp add: save_user_fresh)
  have 2: "history (execute ?w) =
      [([VStr ''INSERT INTO users (name, age) VALUES (?, ?)'',
         VTuple [VStr ''Alice'', VInt 30]], Map.empty)]"
    by (simp add: save_user_fresh)
  from 1 2
    assert_called_once_with_iff [of "connect ?w" "[VStr ''users.db'']" Map.empty]
    assert_called_once_with_iff [of "execute ?w"
       "[VStr ''INSERT INTO users (name, age) VALUES (?, ?)'', VTuple [VStr ''Alice'', VInt 30]]"
       Map.empty]
    assert_called_once_with_iff [of "connect ?w" "[VStr ''other.db'']" Map.empty]
  show ?thesis by auto
qed

section \<open>Mocks with a capability set\<close>

text \<open>
  C3. On a mock built with a capability set, reading, calling or configuring an attribute
  whose name is not in the set fails with UnknownAttribute, and each of them succeeds
  for a name in the set. With the set of \<^verbatim>\<open>APIClient\<close> the one accepted name is
  \<^verbatim>\<open>get_user_data\<close>.
\<close>

theorem spec_mock_unknown_attribute:
  "capabilities m = Some cap \<Longrightarrow>
     (name \<notin> set cap \<longrightarrow>
        mock_read m name = Inl (UnknownAttribute name) \<and>
        mock_call m name args kwargs = Inl (UnknownAttribute name) \<and>
        mock_configure_return m name v = Inl (UnknownAttribute name) \<and>
        mock_configure_effect m name e = Inl (UnknownAttribute name)) \<and>
     (name \<in> set cap \<longrightarrow>
        \<not> isl (mock_read m name) \<and>
        \<not> isl (mock_call m name args kwargs) \<and>
        \<not> isl (mock_configure_return m name v) \<and>
        \<not> isl (mock_configure_effect m name e)) \<and>
     (cap = APIClient \<longrightarrow> (\<not> isl (mock_read m name) \<longleftrightarrow> name = ''get_user_data''))"
  by (auto simp: mock_read_def mock_call_def mock_configure_return_def mock_configure_effect_def
        allows_def APIClient_def split: prod.splits)

theorem spec_mock_unknown_attribute_witness:
  "capabilities (mock (Some APIClient) VNone :: (pyval, pyval) Mock) = Some APIClient \<and>
   mock_read (mock (Some APIClient) VNone :: (pyval, pyval) Mock) ''delete_user''
     = Inl (UnknownAttribute ''delete_user'') \<and>
   mock_call (mock (Some APIClient) VNone :: (pyval, pyval) Mock) ''delete_user'' [VInt 1] Map.empty
     = Inl (UnknownAttribute ''delete_user'') \<and>
   mock_configure_return (mock (Some APIClient) VNone :: (pyval, pyval) Mock) ''delete_user'' (VInt 0)
     = Inl (UnknownAttribute ''delete_user'') \<and>
   \<not> isl (mock_configure_return (mock (Some APIClient) VNone :: (pyval, pyval) Mock)
            ''get_user_data'' (VDict [(''id'', VInt 1), (''name'', VStr ''John Doe'')])) \<and>
   \<not> isl (mock_call (mock (Some APIClient) VNone :: (pyval, pyval) Mock)
            ''get_user_data'' [VInt 1] Map.empty)"
proof -
  let ?m = "mock (Some APIClient) VNone :: (pyval, pyval) Mock"
  have h: "capabilities ?m = Some APIClient" by (simp add: mock_def)
  have a: "''delete_user'' \<notin> set APIClient" and b: "''get_user_data'' \<in> set APIClient"
    by (simp_all add: APIClient_def)
  from h a b
    spec_mock_unknown_attribute
      [OF h, of "''delete_user''" "[VInt 1]" Map.empty "VInt 0" "ValueError []"]
    spec_mock_unknown_attribute
      [OF h, of "''get_user_data''" "[VInt 1]" Map.empty
         "VDict [(''id'', VInt 1), (''name'', VStr ''John Doe'')]" "ValueError []"]
  show ?thesis by simp
qed

lemma upper_John_Doe: "map upper_char ''John Doe'' = ''JOHN DOE''"
  by code_simp

text \<open>\<^verbatim>\<open>test_get_username\<close> of 5-mocking/mocking-classes/test_service.py passes.\<close>

lemma test_get_username:
  "mock_configure_return (mock (Some APIClient) VNone) ''get_user_data''
      (VDict [(''id'', VInt 1), (''name'', VStr ''John Doe'')]) = Inr m \<Longrightarrow>
   (\<exists>m'. get_username m (VInt 1) = Inr (Inr ''JOHN DOE'', m') \<and>
         assert_called_once_with (attr m' ''get_user_data'') [VInt 1] Map.empty = Inr ())"
  by (auto simp: mock_configure_return_def mock_def allows_def APIClient_def get_username_def
        mock_call_def attr_def new_recorder_def record_call_def dict_get_def
        assert_called_once_with_def upper_John_Doe [simplified])

section \<open>get_weather over a mocked HTTP GET\<close>

text \<open>
  C7. With \<^verbatim>\<open>requests.get\<close> replaced by a recorder configured to return a response:
  for every city, if the response has status code 200, \<^verbatim>\<open>get_weather(city)\<close> returns
  the response's JSON body unchanged (whatever it is, so also
  \<^verbatim>\<open>{"temp": 20, "condition": "Sunny"}\<close>); if the status code is not 200 it raises
  ValueError. Either way it makes exactly one call of the recorder, with the URL
  \<^verbatim>\<open>"http://api.weatherapi.com/v1/"\<close> followed by the city as the only argument, so
  that a recorder with no earlier calls passes \<^verbatim>\<open>assert_called_once_with\<close> for it.
\<close>

theorem get_weather_http_mocked:
  "side_effect requests_get = None \<Longrightarrow>
   (status_code (return_value requests_get) = 200 \<longrightarrow>
      fst (get_weather_http city requests_get) = Inr (json (return_value requests_get))) \<and>
   (status_code (return_value requests_get) \<noteq> 200 \<longrightarrow>
      fst (get_weather_http city requests_get)
        = Inl (ValueError ''City not found or API error'')) \<and>
   history (snd (get_weather_http city requests_get))
     = history requests_get @ [([VStr (''http://api.weatherapi.com/v1/'' @ city)], Map.empty)] \<and>
   (history requests_get = [] \<longrightarrow>
      assert_called_once_with (snd (get_weather_http city requests_get))
        [VStr (''http://api.weatherapi.com/v1/'' @ city)] Map.empty = Inr ())"
  by (simp add: get_weather_http_def record_call_def assert_called_once_with_def)

theorem get_weather_http_mocked_witness:
  "side_effect (new_recorder \<lparr>status_code = 200,
       json = VDict [(''temp'', VInt 20), (''condition'', VStr ''Sunny'')]\<rparr>
     :: (pyval, Response) Recorder) = None \<and>
   fst (get_weather_http ''London''
         (new_recorder \<lparr>status_code = 200,
            json = VDict [(''temp'', VInt 20), (''condition'', VStr ''Sunny'')]\<rparr>))
     = Inr (VDict [(''temp'', VInt 20), (''condition'', VStr ''Sunny'')]) \<and>
   history (snd (get_weather_http ''London''
         (new_recorder \<lparr>status_code = 200,
            json = VDict [(''temp'', VInt 20), (''condition'', VStr ''Sunny'')]\<rparr>)))
     = [([VStr ''http://api.weatherapi.com/v1/London''], Map.empty)] \<and>
   assert_called_once_with (snd (get_weather_http ''London''
         (new_recorder \<lparr>status_code = 200,
            json = VDict [(''temp'', VInt 20), (''condition'', VStr ''Sunny'')]\<rparr>)))
     [VStr ''http://api.weatherapi.com/v1/London''] Map.empty = Inr () \<and>
   fst (get_weather_http ''London'' (new_recorder \<lparr>status_code = 404, json = VNone\<rparr>))
     = Inl (ValueError ''City not found or API error'')"
proof -
  let ?ok = "new_recorder \<lparr>status_code = 200,
       json = VDict [(''temp'', VInt 20), (''condition'', VStr ''Sunny'')]\<rparr>
     :: (pyval, Response) Recorder"
  let ?bad = "new_recorder \<lparr>status_code = 404, json = VNone\<rparr> :: (pyval, Response) Recorder"
  have a: "side_effect ?ok = None" and b: "side_effect ?bad = None"
    by (simp_all add: new_recorder_def)
  have c: "return_value ?ok = \<lparr>status_code = 200,
       json = VDict [(''temp'', VInt 20), (''condition'', VStr ''Sunny'')]\<rparr>"
      "return_value ?bad = \<lparr>status_code = 404, json = VNone\<rparr>"
      "history ?ok = []"
    by (simp_all add: new_recorder_def)
  from get_weather_http_mocked [OF a, of "''London''"] get_weather_http_mocked [OF b, of "''London''"]
       a c
  show ?thesis by simp
qed

section \<open>The add_user route\<close>

lemma update_fresh: "k \<notin> fst ` set al \<Longrightarrow> AList.update k v al = al @ [(k, v)]"
  by (induction al) auto

lemma api_add_user_store_cases:
  "snd (api_add_user get_json store) = store \<or>
   (\<exists>u. snd (api_add_user get_json store) = AList.update (int (length store) + 1) u store)"
  by (auto simp: api_add_user_def Let_def split: sum.splits bool.splits)

text \<open>The ids in a store are \<open>1, \<dots>, n\<close> in this order, and every request keeps it so.\<close>

lemma keys_step:
  assumes "map fst store = [1..int (length store)]"
  shows "map fst (snd (api_add_user get_json store))
           = [1..int (length (snd (api_add_user get_json store)))]"
proof -
  from assms have "set (map fst store) = {1..int (length store)}" by simp
  then have fresh: "int (length store) + 1 \<notin> fst ` set store" by auto
  from api_add_user_store_cases [of get_json store] show ?thesis
  proof
    assume "snd (api_add_user get_json store) = store"
    with assms show ?thesis by simp
  next
    assume "\<exists>u. snd (api_add_user get_json store)
                = AList.update (int (length store) + 1) u store"
    then obtain u where
      "snd (api_add_user get_json store) = store @ [(int (length store) + 1, u)]"
      using fresh by (auto simp: update_fresh)
    with assms show ?thesis by (simp add: upto_rec2)
  qed
qed

lemma keys_reachable:
  "map fst store = [1..int (length store)] \<Longrightarrow>
   map fst (api_add_users reqs store) = [1..int (length (api_add_users reqs store))]"
  by (induction reqs arbitrary: store) (auto simp: keys_step)

lemma fresh_from_empty:
  "int (length (api_add_users reqs [])) + 1 \<notin> fst ` set (api_add_users reqs [])"
proof -
  have "map fst (api_add_users reqs []) = [1..int (length (api_add_users reqs []))]"
    by (rule keys_reachable) simp
  then have "set (map fst (api_add_users reqs [])) = {1..int (length (api_add_users reqs []))}"
    by simp
  then show ?thesis by auto
qed

lemma api_add_user_valid:
  assumes "map_of d ''name'' = Some name" and "map_of d ''email'' = Some email"
  shows "api_add_user (Inr (VDict d)) store =
        (Inr (VDict [(''id'', VInt (int (length store) + 1)), (''name'', name), (''email'', email)],
              201),
         AList.update (int (length store) + 1)
           (VDict [(''id'', VInt (int (length store) + 1)), (''name'', name), (''email'', email)])
           store)"
proof -
  from assms have "d \<noteq> []" by auto
  moreover from assms have "''name'' \<in> fst ` set d" "''email'' \<in> fst ` set d"
    by (auto dest: map_of_SomeD intro: rev_image_eqI)
  ultimately show ?thesis
    using assms by (simp add: api_add_user_def dict_get_def Let_def)
qed

text \<open>
  What the handler does where its check is made for: on a JSON object with both
  \<^verbatim>\<open>'name'\<close> and \<^verbatim>\<open>'email'\<close> it stores the record \<open>{id, name, email}\<close> under the id one
  plus the number of users in the store and answers 201 with that record; on a JSON
  object that lacks one of them, and on the body \<^verbatim>\<open>null\<close>, it answers 400 with
  \<^verbatim>\<open>{"error": "Invalid input"}\<close> and leaves the store as it is; an exception of
  \<^verbatim>\<open>get_json()\<close> passes through. On the store left by any earlier requests the new
  record comes after the records already there, which stay as they are.
\<close>

lemma api_add_user_object_bodies:
  "(map_of d ''name'' = Some name \<and> map_of d ''email'' = Some email \<longrightarrow>
      api_add_user (Inr (VDict d)) store =
        (Inr (VDict [(''id'', VInt (int (length store) + 1)), (''name'', name), (''email'', email)],
              201),
         AList.update (int (length store) + 1)
           (VDict [(''id'', VInt (int (length store) + 1)), (''name'', name), (''email'', email)])
           store)) \<and>
   (body = VNone \<or> body = VDict d \<and> (map_of d ''name'' = None \<or> map_of d ''email'' = None) \<longrightarrow>
      api_add_user (Inr body) store
        = (Inr (VDict [(''error'', VStr ''Invalid input'')], 400), store)) \<and>
   api_add_user (Inl e) store = (Inl e, store) \<and>
   (map_of d ''name'' = Some name \<and> map_of d ''email'' = Some email \<and>
    store = api_add_users reqs [] \<longrightarrow>
      snd (api_add_user (Inr (VDict d)) store) =
        store @ [(int (length store) + 1,
                  VDict [(''id'', VInt (int (length store) + 1)), (''name'', name),
                         (''email'', email)])])"
proof (intro conjI impI)
  assume "map_of d ''name'' = Some name \<and> map_of d ''email'' = Some email"
  then show "api_add_user (Inr (VDict d)) store =
        (Inr (VDict [(''id'', VInt (int (length store) + 1)), (''name'', name), (''email'', email)],
              201),
         AList.update (int (length store) + 1)
           (VDict [(''id'', VInt (int (length store) + 1)), (''name'', name), (''email'', email)])
           store)"
    by (simp add: api_add_user_valid)
next
  assume "body = VNone \<or> body = VDict d \<and> (map_of d ''name'' = None \<or> map_of d ''email'' = None)"
  then show "api_add_user (Inr body) store
               = (Inr (VDict [(''error'', VStr ''Invalid input'')], 400), store)"
    by (auto simp: api_add_user_def invalid_input_def map_of_eq_None_iff
          split: sum.splits bool.splits)
next
  show "api_add_user (Inl e) store = (Inl e, store)"
    by (simp add: api_add_user_def)
next
  assume h: "map_of d ''name'' = Some name \<and> map_of d ''email'' = Some email \<and>
             store = api_add_users reqs []"
  then have "int (length store) + 1 \<notin> fst ` set store"
    by (simp add: fresh_from_empty)
  with h show "snd (api_add_user (Inr (VDict d)) store) =
        store @ [(int (length store) + 1,
                  VDict [(''id'', VInt (int (length store) + 1)), (''name'', name),
                         (''email'', email)])]"
    by (simp add: api_add_user_valid update_fresh)
qed

text \<open>
  \<^verbatim>\<open>test_add_user\<close> and \<^verbatim>\<open>test_add_invalid_user\<close> pass on an empty store, and
  \<^verbatim>\<open>test_get_user\<close> passes when it runs second in the session, after
  \<^verbatim>\<open>test_add_user\<close>.
\<close>

lemma test_add_user_requests:
  "api_add_user (Inr (VDict [(''name'', VStr ''John Doe''), (''email'', VStr ''john@email.com'')])) [] =
     (Inr (VDict [(''id'', VInt 1), (''name'', VStr ''John Doe''),
                  (''email'', VStr ''john@email.com'')], 201),
      [(1, VDict [(''id'', VInt 1), (''name'', VStr ''John Doe''),
                  (''email'', VStr ''john@email.com'')])]) \<and>
   api_add_user (Inr (VDict [(''name'', VStr ''Jane Doe'')])) [] =
     (Inr (VDict [(''error'', VStr ''Invalid input'')], 400), [])"
  by (simp add: api_add_user_def dict_get_def invalid_input_def Let_def)

lemma test_get_user:
  "api_get_user 2 (api_add_users
      [Inr (VDict [(''name'', VStr ''John Doe''), (''email'', VStr ''john@email.com'')]),
       Inr (VDict [(''name'', VStr ''Bob Leck''), (''email'', VStr ''bob@test.com'')])] []) =
   (VDict [(''id'', VInt 2), (''name'', VStr ''Bob Leck''), (''email'', VStr ''bob@test.com'')], 200)"
  by (simp add: api_add_user_def dict_get_def api_get_user_def Let_def)

lemma sublist_name_email:
  "sublist ''name'' ''name email''" "sublist ''email'' ''name email''"
proof -
  have "''name email'' = [] @ ''name'' @ '' email''" by simp
  then show "sublist ''name'' ''name email''" unfolding sublist_def by blast
  have "''name email'' = ''name '' @ ''email'' @ []" by simp
  then show "sublist ''email'' ''name email''" unfolding sublist_def by blast
qed

text \<open>
  C10. The handler's check \<^verbatim>\<open>not data or 'name' not in data or 'email' not in data\<close>
  is there to answer a body without the two fields with 400, and it does so for objects
  and for empty or zero bodies. On a JSON body that is neither an object nor falsy it
  raises instead: the body \<^verbatim>\<open>5\<close> has no \<^verbatim>\<open>'name'\<close>, yet \<^verbatim>\<open>'name' not in data\<close> raises
  TypeError and no 400 is returned; the bodies \<^verbatim>\<open>["name", "email"]\<close> and
  \<^verbatim>\<open>"name email"\<close> pass the check and \<^verbatim>\<open>data['name']\<close> raises TypeError. The sibling
  bodies \<^verbatim>\<open>[]\<close>, \<^verbatim>\<open>0\<close> and \<^verbatim>\<open>[1]\<close> get the 400 the check is there for.
\<close>

theorem api_add_user_non_object_raises:
  "api_add_user (Inr (VInt 5)) []
     = (Inl (TypeError ''argument of type 'int' is not iterable''), []) \<and>
   api_add_user (Inr (VList [VStr ''name'', VStr ''email''])) []
     = (Inl (TypeError ''list indices must be integers or slices, not str''), []) \<and>
   api_add_user (Inr (VStr ''name email'')) []
     = (Inl (TypeError (''string indices must be integers, not '' @ quoted ''str'')), []) \<and>
   api_add_user (Inr (VList [])) [] = (Inr (VDict [(''error'', VStr ''Invalid input'')], 400), []) \<and>
   api_add_user (Inr (VInt 0)) [] = (Inr (VDict [(''error'', VStr ''Invalid input'')], 400), []) \<and>
   api_add_user (Inr (VList [VInt 1])) []
     = (Inr (VDict [(''error'', VStr ''Invalid input'')], 400), [])"
  by (simp add: api_add_user_def invalid_input_def quoted_def Let_def sublist_name_email)

section \<open>Rounding to the nearest double\<close>

lemma powi_less_iff: "(2::rat) powi i < 2 powi j \<longleftrightarrow> i < j"
proof
  assume "(2::rat) powi i < 2 powi j"
  show "i < j"
  proof (rule ccontr)
    assume "\<not> i < j"
    then have "j \<le> i" by simp
    then have "(2::rat) powi j \<le> 2 powi i" by (rule power_int_increasing) simp
    with \<open>(2::rat) powi i < 2 powi j\<close> show False by simp
  qed
next
  assume "i < j"
  then show "(2::rat) powi i < 2 powi j" by (rule power_int_strict_increasing) simp
qed

lemma powi_le_iff: "(2::rat) powi i \<le> 2 powi j \<longleftrightarrow> i \<le> j"
  using powi_less_iff [of j i] by (auto simp: not_less [symmetric])

lemma bitlen_rat_bounds:
  assumes "0 < p"
  shows "(2::rat) powi (bitlen p - 1) \<le> of_int p" and "of_int p < (2::rat) powi bitlen p"
proof -
  from assms have b1: "1 \<le> bitlen p" by (simp add: bitlen_alt_def)
  from bitlen_bounds [OF assms]
  have lo: "2 ^ nat (bitlen p - 1) \<le> p" and hi: "p < 2 ^ nat (bitlen p)" by simp_all
  from lo have "(of_int (2 ^ nat (bitlen p - 1)) :: rat) \<le> of_int p"
    by (simp only: of_int_le_iff)
  with b1 show "(2::rat) powi (bitlen p - 1) \<le> of_int p"
    by (simp add: power_int_def)
  from hi have "(of_int p :: rat) < of_int (2 ^ nat (bitlen p))"
    by (simp only: of_int_less_iff)
  with b1 show "of_int p < (2::rat) powi bitlen p"
    by (simp add: power_int_def)
qed

lemma ilog2_bounds:
  assumes "0 < a"
  shows "2 powi (ilog2 a) \<le> a" and "a < 2 powi (ilog2 a + 1)"
proof -
  define p where "p = fst (quotient_of a)"
  define q where "q = snd (quotient_of a)"
  have q: "0 < q" unfolding q_def by (rule quotient_of_denom_pos')
  have a: "a = of_int p / of_int q"
    unfolding p_def q_def by (rule quotient_of_div) simp
  with assms q have p: "0 < p" by (simp add: zero_less_divide_iff)
  define d where "d = bitlen p - bitlen q"
  note bp = bitlen_rat_bounds [OF p] and bq = bitlen_rat_bounds [OF q]
  have qr: "(0::rat) < of_int q" using q by simp
  have "of_int p < (2::rat) powi bitlen p" by (rule bp)
  also have "\<dots> = 2 powi (d + 1) * 2 powi (bitlen q - 1)"
    by (simp add: d_def power_int_add [symmetric])
  also have "\<dots> \<le> 2 powi (d + 1) * of_int q"
    using bq(1) by (simp add: mult_left_mono)
  finally have up: "a < 2 powi (d + 1)"
    using qr by (simp add: a pos_divide_less_eq)
  have "(2::rat) powi (d - 1) * of_int q < 2 powi (d - 1) * 2 powi bitlen q"
    using bq(2) by simp
  also have "\<dots> = 2 powi (bitlen p - 1)"
    by (simp add: d_def power_int_add [symmetric])
  also have "\<dots> \<le> of_int p" by (rule bp)
  finally have lo: "2 powi (d - 1) < a"
    using qr by (simp add: a pos_less_divide_eq)
  have il: "ilog2 a = (if 2 powi d \<le> a then d else d - 1)"
    by (simp add: ilog2_def d_def p_def q_def Let_def)
  show "2 powi (ilog2 a) \<le> a" using lo by (simp add: il)
  show "a < 2 powi (ilog2 a + 1)" using up by (simp add: il)
qed

lemma ilog2_less: "0 < a \<Longrightarrow> a < 2 powi k \<Longrightarrow> ilog2 a < k"
  using ilog2_bounds(1) [of a] powi_less_iff [of "ilog2 a" k] by simp

lemma ilog2_ge: "0 < a \<Longrightarrow> 2 powi k \<le> a \<Longrightarrow> k \<le> ilog2 a"
  using ilog2_bounds(2) [of a] powi_less_iff [of k "ilog2 a + 1"] by simp

lemma round_half_even_of_int [simp]: "round_half_even (of_int k) = k"
  by (simp add: round_half_even_def)

lemma round_half_even_bounds:
  "of_int (round_half_even x) \<le> x + 1 / 2" "x - 1 / 2 \<le> of_int (round_half_even x)"
proof -
  have "of_int \<lfloor>x\<rfloor> \<le> x" "x < of_int \<lfloor>x\<rfloor> + 1" by linarith+
  then show "of_int (round_half_even x) \<le> x + 1 / 2" "x - 1 / 2 \<le> of_int (round_half_even x)"
    unfolding round_half_even_def Let_def by (auto simp del: of_int_floor_le) 
qed

lemma ilog2_eq: "2 powi k \<le> a \<Longrightarrow> a < 2 powi (k + 1) \<Longrightarrow> ilog2 a = k"
proof -
  assume lo: "2 powi k \<le> a" and hi: "a < 2 powi (k + 1)"
  have "(0::rat) < 2 powi k" by simp
  with lo have pos: "0 < a" by linarith
  from ilog2_ge [OF pos lo] ilog2_less [OF pos hi] show ?thesis by simp
qed

lemma round_double_exact:
  assumes "x = of_int m * 2 powi e0" and m: "\<bar>m\<bar> < 2 ^ 53" and e0: "- 1074 \<le> e0"
  shows "round_double x = x"
proof (cases "x = 0")
  case True
  then show ?thesis by (simp add: round_double_def)
next
  case False
  define e where "e = max (ilog2 \<bar>x\<bar> - 52) (- 1074)"
  have pos: "0 < \<bar>x\<bar>" using False by simp
  have "\<bar>x\<bar> = of_int \<bar>m\<bar> * 2 powi e0"
    by (simp add: assms(1) abs_mult)
  also have "\<dots> < 2 ^ 53 * 2 powi e0"
  proof -
    from m have "(of_int \<bar>m\<bar> :: rat) < of_int (2 ^ 53)" by (simp only: of_int_less_iff)
    then show ?thesis by simp
  qed
  also have "\<dots> = 2 powi (e0 + 53)"
    by (simp add: power_int_add)
  finally have "ilog2 \<bar>x\<bar> < e0 + 53" by (rule ilog2_less [OF pos])
  with e0 have le: "e \<le> e0" by (simp add: e_def)
  have "x / 2 powi e = of_int m * 2 powi (e0 - e)"
    by (simp add: assms(1) power_int_diff)
  also have "\<dots> = of_int (m * 2 ^ nat (e0 - e))"
    using le by (simp add: power_int_def)
  finally have "round_half_even (x / 2 powi e) = m * 2 ^ nat (e0 - e)"
    by (simp only: round_half_even_of_int)
  then have "of_int (round_half_even (x / 2 powi e)) * 2 powi e = of_int m * 2 powi (e0 - e) * 2 powi e"
    using le by (simp add: power_int_def)
  also have "\<dots> = x"
    by (simp add: assms(1) power_int_diff)
  finally show ?thesis
    using False by (simp add: round_double_def e_def Let_def)
qed

lemma round_double_of_int_small: "\<bar>n\<bar> < 2 ^ 53 \<Longrightarrow> round_double (of_int n) = of_int n"
  by (rule round_double_exact [of _ n 0]) simp_all

lemma round_half_even_minus: "round_half_even (- x) = - round_half_even x"
proof (cases "x = of_int \<lfloor>x\<rfloor>")
  case True
  then obtain k where "x = of_int k" ..
  then have "- x = of_int (- k)" by simp
  then show ?thesis using \<open>x = of_int k\<close> by (simp only: round_half_even_of_int)
next
  case False
  define f where "f = \<lfloor>x\<rfloor>"
  define r where "r = x - of_int f"
  have "of_int f \<le> x" "x < of_int f + 1" unfolding f_def by linarith+
  moreover from False have "x \<noteq> of_int f" by (simp add: f_def)
  ultimately have r: "0 < r" "r < 1" unfolding r_def by linarith+
  have x: "x = of_int f + r" by (simp add: r_def)
  have fl: "\<lfloor>- x\<rfloor> = - f - 1"
    by (rule floor_unique) (use r in \<open>simp_all add: x\<close>)
  have r': "- x - of_int (- f - 1) = 1 - r" by (simp add: x)
  have rx: "round_half_even x = (if r < 1 / 2 then f else if 1 / 2 < r then f + 1 else if even f then f else f + 1)"
    unfolding round_half_even_def Let_def r_def f_def ..
  have rmx: "round_half_even (- x) =
      (if 1 - r < 1 / 2 then - f - 1 else if 1 / 2 < 1 - r then - f - 1 + 1
       else if even (- f - 1) then - f - 1 else - f - 1 + 1)"
    unfolding round_half_even_def Let_def fl r' ..
  consider "r < 1 / 2" | "1 / 2 < r" | "r = 1 / 2" by linarith
  then show ?thesis
  proof cases
    case 1 then show ?thesis by (simp add: rx rmx)
  next
    case 2 then show ?thesis by (simp add: rx rmx)
  next
    case 3 then show ?thesis by (simp add: rx rmx)
  qed
qed

lemma round_double_minus: "round_double (- x) = - round_double x"
  by (simp add: round_double_def Let_def round_half_even_minus)

lemma round_double_normal:
  assumes lo: "2 powi (k + 52) \<le> x" and hi: "x < 2 powi (k + 53)" and k: "- 1074 \<le> k"
  shows "round_double x = of_int (round_half_even (x / 2 powi k)) * 2 powi k"
    and "2 ^ 52 \<le> x / 2 powi k" and "x / 2 powi k < 2 ^ 53"
proof -
  have "(0::rat) < 2 powi (k + 52)" by simp
  with lo have pos: "0 < x" by linarith
  from hi have "x < 2 powi (k + 52 + 1)" by (simp add: add.commute add.left_commute)
  with lo have "ilog2 x = k + 52" by (rule ilog2_eq)
  with pos k show "round_double x = of_int (round_half_even (x / 2 powi k)) * 2 powi k"
    by (simp add: round_double_def Let_def max_def)
  have "(2::rat) ^ 52 * 2 powi k = 2 powi (k + 52)" by (simp add: power_int_add)
  with lo show "2 ^ 52 \<le> x / 2 powi k" by (simp add: pos_le_divide_eq)
  have "(2::rat) ^ 53 * 2 powi k = 2 powi (k + 53)" by (simp add: power_int_add)
  with hi show "x / 2 powi k < 2 ^ 53" by (simp add: pos_divide_less_eq)
qed

lemma round_double_large_pos:
  assumes "2 ^ 53 \<le> x"
  shows "2 ^ 53 \<le> round_double x"
proof -
  have "(0::rat) < 2 ^ 53" by simp
  with assms have pos: "0 < x" by linarith
  define k where "k = ilog2 x - 52"
  from assms have "2 powi 53 \<le> x" by simp
  then have "53 \<le> ilog2 x" by (rule ilog2_ge [OF pos])
  then have k1: "1 \<le> k" by (simp add: k_def)
  have e52: "k + 52 = ilog2 x" and e53: "k + 53 = ilog2 x + 1" by (simp_all add: k_def)
  have lo: "2 powi (k + 52) \<le> x" unfolding e52 by (rule ilog2_bounds(1) [OF pos])
  have hi: "x < 2 powi (k + 53)" unfolding e53 by (rule ilog2_bounds(2) [OF pos])
  from k1 have k: "- 1074 \<le> k" by simp
  note rd = round_double_normal [OF lo hi k]
  define m where "m = round_half_even (x / 2 powi k)"
  from round_half_even_bounds(2) [of "x / 2 powi k"] rd(2)
  have "(2::rat) ^ 52 - 1 / 2 \<le> of_int m" by (simp add: m_def)
  then have "(of_int (2 ^ 52 - 1) :: rat) < of_int m" by simp
  then have "2 ^ 52 - 1 < m" by (simp only: of_int_less_iff)
  then have "2 ^ 52 \<le> m" by simp
  then have m52: "(2::rat) ^ 52 \<le> of_int m"
    by (metis of_int_le_iff of_int_numeral of_int_power)
  from k1 have "(2::rat) powi 1 \<le> 2 powi k" by (simp only: powi_le_iff)
  then have "(2::rat) \<le> 2 powi k" by simp
  with m52 have "(2::rat) ^ 52 * 2 \<le> of_int m * 2 powi k"
    by (intro mult_mono) simp_all
  then show ?thesis by (simp add: rd(1) m_def)
qed

lemma large_frame:
  assumes "2 ^ 53 \<le> x"
  obtains k where "1 \<le> k" and "2 powi (k + 52) \<le> x" and "x < 2 powi (k + 53)"
    and "round_double x = of_int (round_half_even (x / 2 powi k)) * 2 powi k"
    and "2 ^ 52 \<le> x / 2 powi k" and "x / 2 powi k < 2 ^ 53"
proof -
  have "(0::rat) < 2 ^ 53" by simp
  with assms have pos: "0 < x" by linarith
  define k where "k = ilog2 x - 52"
  from assms have "2 powi 53 \<le> x" by simp
  then have "53 \<le> ilog2 x" by (rule ilog2_ge [OF pos])
  then have k1: "1 \<le> k" by (simp add: k_def)
  have e52: "k + 52 = ilog2 x" and e53: "k + 53 = ilog2 x + 1" by (simp_all add: k_def)
  have lo: "2 powi (k + 52) \<le> x" unfolding e52 by (rule ilog2_bounds(1) [OF pos])
  have hi: "x < 2 powi (k + 53)" unfolding e53 by (rule ilog2_bounds(2) [OF pos])
  from k1 have k: "- 1074 \<le> k" by simp
  from that [OF k1 lo hi round_double_normal [OF lo hi k]] show thesis .
qed

lemma round_double_below_max:
  assumes big: "2 ^ 53 \<le> x" and lim: "x < 2 ^ 1024 - 2 ^ 970"
  shows "round_double x < 2 ^ 1024"
proof -
  from big obtain k where k1: "1 \<le> k" and lo: "2 powi (k + 52) \<le> x"
    and rd: "round_double x = of_int (round_half_even (x / 2 powi k)) * 2 powi k"
    and y: "x / 2 powi k < 2 ^ 53"
    by (rule large_frame)
  define m where "m = round_half_even (x / 2 powi k)"
  have up: "of_int m \<le> x / 2 powi k + 1 / 2"
    unfolding m_def by (rule round_half_even_bounds)
  from lim have "x < 2 powi 1024" by simp
  with lo have "(2::rat) powi (k + 52) < 2 powi 1024" by linarith
  then have "k + 52 < 1024" by (simp only: powi_less_iff)
  then have "k \<le> 970 \<or> k = 971" by linarith
  then show ?thesis
  proof
    assume k970: "k \<le> 970"
    from up y have "(of_int m :: rat) < 2 ^ 53 + 1" by linarith
    then have "(of_int m :: rat) < of_int (2 ^ 53 + 1)" by simp
    then have "m < 2 ^ 53 + 1" by (simp only: of_int_less_iff)
    then have "m \<le> 2 ^ 53" by linarith
    then have "(of_int m :: rat) \<le> of_int (2 ^ 53)" by (simp only: of_int_le_iff)
    then have "(of_int m :: rat) * 2 powi k \<le> 2 ^ 53 * 2 powi k"
      by (intro mult_right_mono) simp_all
    also from k970 have "(2::rat) powi k \<le> 2 powi 970" by (simp only: powi_le_iff)
    then have "(2::rat) ^ 53 * 2 powi k \<le> 2 ^ 53 * 2 powi 970"
      by (intro mult_left_mono) simp_all
    also have "(2::rat) ^ 53 * 2 powi 970 < 2 ^ 1024" by simp
    finally show ?thesis by (simp add: rd m_def)
  next
    assume k971: "k = 971"
    have "x / 2 powi k < (2 ^ 1024 - 2 ^ 970) / 2 powi 971"
      using lim by (simp add: k971 divide_strict_right_mono)
    also have "\<dots> = 2 ^ 53 - 1 / 2" by simp
    finally have "x / 2 powi k < 2 ^ 53 - 1 / 2" .
    with up have "(of_int m :: rat) < 2 ^ 53" by linarith
    then have "(of_int m :: rat) < of_int (2 ^ 53)" by simp
    then have "m < 2 ^ 53" by (simp only: of_int_less_iff)
    then have "m \<le> 2 ^ 53 - 1" by linarith
    then have "(of_int m :: rat) \<le> of_int (2 ^ 53 - 1)" by (simp only: of_int_le_iff)
    then have "(of_int m :: rat) * 2 powi 971 \<le> of_int (2 ^ 53 - 1) * 2 powi 971"
      by (intro mult_right_mono) simp_all
    also have "\<dots> < 2 ^ 1024" by simp
    finally show ?thesis by (simp add: rd m_def k971)
  qed
qed

lemma round_double_above_max:
  assumes lim: "2 ^ 1024 - 2 ^ 970 \<le> x"
  shows "2 ^ 1024 \<le> round_double x"
proof -
  have "(2::rat) ^ 53 \<le> 2 ^ 1024 - 2 ^ 970" by simp
  with lim have big: "2 ^ 53 \<le> x" by linarith
  then obtain k where k1: "1 \<le> k" and lo: "2 powi (k + 52) \<le> x" and hi: "x < 2 powi (k + 53)"
    and rd: "round_double x = of_int (round_half_even (x / 2 powi k)) * 2 powi k"
    and y: "2 ^ 52 \<le> x / 2 powi k"
    by (rule large_frame)
  define m where "m = round_half_even (x / 2 powi k)"
  have dn: "x / 2 powi k - 1 / 2 \<le> of_int m"
    unfolding m_def by (rule round_half_even_bounds)
  have "(2::rat) powi 1023 \<le> 2 ^ 1024 - 2 ^ 970" by simp
  with lim hi have "(2::rat) powi 1023 < 2 powi (k + 53)" by linarith
  then have "1023 < k + 53" by (simp only: powi_less_iff)
  then have "972 \<le> k \<or> k = 971" by linarith
  then show ?thesis
  proof
    assume k972: "972 \<le> k"
    from dn y have "(2::rat) ^ 52 - 1 < of_int m" by linarith
    then have "(of_int (2 ^ 52 - 1) :: rat) < of_int m" by simp
    then have "2 ^ 52 - 1 < m" by (simp only: of_int_less_iff)
    then have "2 ^ 52 \<le> m" by linarith
    then have "(of_int (2 ^ 52) :: rat) \<le> of_int m" by (simp only: of_int_le_iff)
    then have m52: "(2::rat) ^ 52 \<le> of_int m" by simp
    from k972 have "(2::rat) powi 972 \<le> 2 powi k" by (simp only: powi_le_iff)
    with m52 have "(2::rat) ^ 52 * 2 powi 972 \<le> of_int m * 2 powi k"
      by (intro mult_mono) simp_all
    moreover have "(2::rat) ^ 52 * 2 powi 972 = 2 ^ 1024" by simp
    ultimately show ?thesis by (simp add: rd m_def)
  next
    assume k971: "k = 971"
    define yy where "yy = x / 2 powi 971"
    have "(2 ^ 1024 - 2 ^ 970) / 2 powi 971 \<le> yy"
      unfolding yy_def using lim by (intro divide_right_mono) simp_all
    moreover have "((2::rat) ^ 1024 - 2 ^ 970) / 2 powi 971 = 2 ^ 53 - 1 / 2" by simp
    ultimately have ylo: "2 ^ 53 - 1 / 2 \<le> yy" by simp
    have "(2::rat) ^ 53 * 2 powi 971 = 2 powi (971 + 53)" by simp
    with hi have yhi: "yy < 2 ^ 53" by (simp add: yy_def k971 pos_divide_less_eq)
    have fl: "\<lfloor>yy\<rfloor> = 2 ^ 53 - 1"
      by (rule floor_unique) (use ylo yhi in simp_all)
    have odd: "odd (2 ^ 53 - 1 :: int)" by simp
    from ylo have r: "1 / 2 \<le> yy - of_int (2 ^ 53 - 1 :: int)" by simp
    have "round_half_even yy = 2 ^ 53"
      unfolding round_half_even_def Let_def fl using r odd by auto
    then have "m = 2 ^ 53" by (simp add: m_def k971 yy_def)
    then have "of_int m * (2::rat) powi k = 2 ^ 1024" by (simp add: k971)
    then show ?thesis by (simp add: rd m_def)
  qed
qed

lemma round_double_int_cases:
  fixes n :: int
  shows "(\<bar>n\<bar> < 2 ^ 53 \<and> round_double (of_int n) = of_int n) \<or>
         (2 ^ 53 \<le> n \<and> 2 ^ 53 \<le> round_double (of_int n)) \<or>
         (n \<le> - (2 ^ 53) \<and> round_double (of_int n) \<le> - (2 ^ 53))"
proof -
  consider "\<bar>n\<bar> < 2 ^ 53" | "2 ^ 53 \<le> n" | "n \<le> - (2 ^ 53)" by linarith
  then show ?thesis
  proof cases
    case 1
    then show ?thesis by (simp add: round_double_of_int_small)
  next
    case 2
    then have "(of_int (2 ^ 53) :: rat) \<le> of_int n" by (simp only: of_int_le_iff)
    then have "(2::rat) ^ 53 \<le> of_int n" by simp
    then have "2 ^ 53 \<le> round_double (of_int n)" by (rule round_double_large_pos)
    with 2 show ?thesis by simp
  next
    case 3
    then have "2 ^ 53 \<le> - n" by linarith
    then have "(of_int (2 ^ 53) :: rat) \<le> of_int (- n)" by (simp only: of_int_le_iff)
    then have "(2::rat) ^ 53 \<le> - of_int n" by simp
    then have "2 ^ 53 \<le> round_double (- of_int n)" by (rule round_double_large_pos)
    then have "round_double (of_int n) \<le> - (2 ^ 53)" by (simp add: round_double_minus)
    with 3 show ?thesis by simp
  qed
qed

lemma round_double_int_gt_20: "20 < round_double (of_int n) \<longleftrightarrow> 20 < n"
proof -
  have a: "(20::rat) < 2 ^ 53" "(20::int) < 2 ^ 53" by simp_all
  from round_double_int_cases [of n] show ?thesis
  proof (elim disjE conjE)
    assume "round_double (of_int n) = of_int n"
    then show ?thesis by simp
  next
    assume "2 ^ 53 \<le> n" "2 ^ 53 \<le> round_double (of_int n)"
    with a show ?thesis by linarith
  next
    assume "n \<le> - (2 ^ 53)" "round_double (of_int n) \<le> - (2 ^ 53)"
    with a show ?thesis by linarith
  qed
qed

lemma round_double_int_in_range:
  fixes n :: int
  assumes "\<bar>n\<bar> < 2 ^ 1024 - 2 ^ 970"
  shows "\<not> too_large (round_double (of_int n))"
proof -
  have c: "(2::rat) ^ 53 < 2 ^ 1024" "(0::rat) < 2 ^ 53" by simp_all
  from assms have "(of_int \<bar>n\<bar> :: rat) < of_int (2 ^ 1024 - 2 ^ 970)" by (simp only: of_int_less_iff)
  then have lim: "\<bar>of_int n :: rat\<bar> < 2 ^ 1024 - 2 ^ 970" by simp
  from round_double_int_cases [of n] show ?thesis
  proof (elim disjE conjE)
    assume "\<bar>n\<bar> < 2 ^ 53" and eq: "round_double (of_int n) = of_int n"
    then have "(of_int \<bar>n\<bar> :: rat) < of_int (2 ^ 53)" by (simp only: of_int_less_iff)
    then have "\<bar>of_int n :: rat\<bar> < 2 ^ 53" by simp
    with c show ?thesis unfolding too_large_def eq by linarith
  next
    assume "2 ^ 53 \<le> n" and big: "2 ^ 53 \<le> round_double (of_int n)"
    then have "(of_int (2 ^ 53) :: rat) \<le> of_int n" by (simp only: of_int_le_iff)
    then have "(2::rat) ^ 53 \<le> of_int n" by simp
    moreover from lim have "(of_int n :: rat) < 2 ^ 1024 - 2 ^ 970" by linarith
    ultimately have "round_double (of_int n) < 2 ^ 1024" by (rule round_double_below_max)
    with big c show ?thesis unfolding too_large_def by linarith
  next
    assume "n \<le> - (2 ^ 53)" and big: "round_double (of_int n) \<le> - (2 ^ 53)"
    then have "2 ^ 53 \<le> - n" by linarith
    then have "(of_int (2 ^ 53) :: rat) \<le> of_int (- n)" by (simp only: of_int_le_iff)
    then have "(2::rat) ^ 53 \<le> - of_int n" by simp
    moreover from lim have "- (of_int n :: rat) < 2 ^ 1024 - 2 ^ 970" by linarith
    ultimately have "round_double (- of_int n) < 2 ^ 1024" by (rule round_double_below_max)
    then have "- (2 ^ 1024) < round_double (of_int n)" by (simp add: round_double_minus)
    with big c show ?thesis unfolding too_large_def by linarith
  qed
qed

lemma round_double_int_out_of_range:
  fixes n :: int
  assumes "2 ^ 1024 - 2 ^ 970 \<le> \<bar>n\<bar>"
  shows "too_large (round_double (of_int n))"
proof -
  from assms have "(of_int (2 ^ 1024 - 2 ^ 970) :: rat) \<le> of_int \<bar>n\<bar>" by (simp only: of_int_le_iff)
  then have lim: "2 ^ 1024 - 2 ^ 970 \<le> \<bar>of_int n :: rat\<bar>" by simp
  show ?thesis
  proof (cases "0 \<le> n")
    case True
    with lim have "2 ^ 1024 - 2 ^ 970 \<le> (of_int n :: rat)" by simp
    then have "2 ^ 1024 \<le> round_double (of_int n)" by (rule round_double_above_max)
    then show ?thesis unfolding too_large_def by linarith
  next
    case False
    with lim have "2 ^ 1024 - 2 ^ 970 \<le> - (of_int n :: rat)" by simp
    then have "2 ^ 1024 \<le> round_double (- of_int n)" by (rule round_double_above_max)
    then have "round_double (of_int n) \<le> - (2 ^ 1024)" by (simp add: round_double_minus)
    then show ?thesis unfolding too_large_def by linarith
  qed
qed


section \<open>get_weather: hot or cold\<close>

text \<open>
  C8, as stated, fails: \<^verbatim>\<open>float(temp)\<close> raises OverflowError for an int beyond the range
  of a double, so \<^verbatim>\<open>get_weather(2**1024)\<close> raises instead of returning "Hot".
\<close>

theorem get_weather_huge_int_counterexample:
  "(20::int) < 2 ^ 1024 \<and> get_weather (PyInt (2 ^ 1024)) \<noteq> Inr ''Hot''"
proof -
  have "(2::int) ^ 1024 - 2 ^ 970 \<le> \<bar>2 ^ 1024\<bar>" by simp
  then have "too_large (round_double (of_int (2 ^ 1024)))" by (rule round_double_int_out_of_range)
  then have "get_weather (PyInt (2 ^ 1024)) = Inl (OverflowError ''int too large to convert to float'')"
    by (simp add: get_weather_def to_float_def float_of_int_def Let_def del: of_int_power of_int_numeral)
  then show ?thesis by simp
qed

text \<open>
  C8, amended. For every float temperature \<open>t\<close> and every int temperature \<open>t\<close> with
  \<open>|t| < 2\<^sup>1\<^sup>0\<^sup>2\<^sup>4 - 2\<^sup>9\<^sup>7\<^sup>0\<close> (the ints that convert to a float), \<^verbatim>\<open>get_weather(t)\<close>
  returns "Hot" exactly when \<open>t\<close> is strictly greater than 20 and "Cold" otherwise; 20
  itself is "Cold", and so is a NaN. For every other int it raises OverflowError.
\<close>

theorem get_weather_hot_cold:
  "get_weather (PyFloat (Finite x)) = Inr (if 20 < x then ''Hot'' else ''Cold'') \<and>
   get_weather (PyFloat PInf) = Inr ''Hot'' \<and>
   get_weather (PyFloat NInf) = Inr ''Cold'' \<and>
   get_weather (PyFloat NaN) = Inr ''Cold'' \<and>
   (\<bar>n\<bar> < 2 ^ 1024 - 2 ^ 970 \<longrightarrow>
      get_weather (PyInt n) = Inr (if 20 < n then ''Hot'' else ''Cold'')) \<and>
   (2 ^ 1024 - 2 ^ 970 \<le> \<bar>n\<bar> \<longrightarrow>
      get_weather (PyInt n) = Inl (OverflowError ''int too large to convert to float'')) \<and>
   get_weather (PyInt 20) = Inr ''Cold''"
proof -
  have int_ok: "get_weather (PyInt k) = Inr (if 20 < k then ''Hot'' else ''Cold'')"
    if "\<bar>k\<bar> < 2 ^ 1024 - 2 ^ 970" for k
    using round_double_int_in_range [OF that] round_double_int_gt_20 [of k]
    by (simp add: get_weather_def to_float_def float_of_int_def float_gt_int_def Let_def)
  have "\<bar>20 :: int\<bar> < 2 ^ 1024 - 2 ^ 970" by simp
  from int_ok [OF this] have c20: "get_weather (PyInt 20) = Inr ''Cold''" by simp
  have int_bad: "get_weather (PyInt n) = Inl (OverflowError ''int too large to convert to float'')"
    if "2 ^ 1024 - 2 ^ 970 \<le> \<bar>n\<bar>"
    using round_double_int_out_of_range [OF that]
    by (simp add: get_weather_def to_float_def float_of_int_def Let_def)
  show ?thesis
    using int_ok [of n] int_bad c20
    by (simp add: get_weather_def to_float_def float_gt_int_def)
qed

theorem get_weather_hot_cold_witness:
  "\<bar>21 :: int\<bar> < 2 ^ 1024 - 2 ^ 970 \<and> get_weather (PyInt 21) = Inr ''Hot'' \<and>
   get_weather (PyInt 20) = Inr ''Cold'' \<and>
   get_weather (PyFloat (Finite (201 / 10))) = Inr ''Hot'' \<and>
   (2::int) ^ 1024 - 2 ^ 970 \<le> \<bar>2 ^ 1024\<bar> \<and>
   get_weather (PyInt (2 ^ 1024)) = Inl (OverflowError ''int too large to convert to float'')"
proof -
  have a: "\<bar>21 :: int\<bar> < 2 ^ 1024 - 2 ^ 970" by simp
  have b: "(2::int) ^ 1024 - 2 ^ 970 \<le> \<bar>2 ^ 1024\<bar>" by simp
  from get_weather_hot_cold [of "201 / 10" 21] a
  have 1: "get_weather (PyInt 21) = Inr ''Hot''"
    and 2: "get_weather (PyInt 20) = Inr ''Cold''"
    and 3: "get_weather (PyFloat (Finite (201 / 10))) = Inr ''Hot''"
    by simp_all
  from get_weather_hot_cold [of 0 "2 ^ 1024"] b
  have 4: "get_weather (PyInt (2 ^ 1024)) = Inl (OverflowError ''int too large to convert to float'')"
    by blast
  from a b 1 2 3 4 show ?thesis by blast
qed

section \<open>divide\<close>
















end
